theory Spec2Isabelle
  imports Main "HOL-Library.AList"
begin

section \<open>Chunked upload reassembly: \<open>uploadBigFileServer.ts\<close>\<close>

text \<open>
  The module keeps all of its state in one directory, \<open>tempDirectory\<close>. The state of the
  model is the content of that directory, as the list of its entries. The order of that
  list is the order in which the entries were created; it is not the order in which
  \<open>fs.readdir\<close> returns the names, which is the file system's choice and a parameter of
  the model. A path is the list of its components below
  \<open>tempDirectory\<close>; \<open>path.join\<close> is list construction, which is exact for the names
  the module builds (an upload identifier that passed the UUID check has no separator).

  Numbers of the request metadata are modelled as integers, \<open>Date.now()\<close> and the time
  stamps of the file system as one integer \<open>now\<close> per submission, file contents and
  payloads as strings of bytes. A file-system call that rejects is a value of \<open>errno\<close>;
  an exception that leaves \<open>loadUploadFiles\<close> is the outcome \<open>Raised\<close>.

  A submission runs alone: nothing else changes the storage while it runs, and what it
  wrote to the output stream is in the file when it returns. \<open>tempDirectory\<close> itself
  exists as a directory after \<open>fsExtra.ensureDir(tempDirectory)\<close>; a missing one is the
  empty list.
\<close>

subsection \<open>The file system below \<open>tempDirectory\<close>\<close>

datatype node =
    File (mtime: int) (content: string)
  | Dir (mtime: int) (entries: "(string \<times> node) list")

type_synonym entries = "(string \<times> node) list"

datatype errno = ENOENT | ENOTDIR | EISDIR | EEXIST

text \<open>\<open>fs.stat\<close>: \<open>None\<close> when the call rejects.\<close>

fun stat :: "entries \<Rightarrow> string list \<Rightarrow> node option" where
  "stat es [] = None"
| "stat es [n] = map_of es n"
| "stat es (n # p) = (case map_of es n of Some (Dir t sub) \<Rightarrow> stat sub p | _ \<Rightarrow> None)"

text \<open>
  The order of a listing. The file system ranks the names of a directory, as it likes and
  for each set of names anew, and lists them by rank; names of equal rank come in the order
  of their creation. Every order of the names of a directory is the listing under some
  ranking.
\<close>

type_synonym listingOrder = "string list \<Rightarrow> string \<Rightarrow> nat"

definition listing :: "listingOrder \<Rightarrow> string list \<Rightarrow> string list" where
  "listing ord ns = sort_key (ord ns) ns"

text \<open>\<open>fs.readdir\<close>: the names of a directory, in listing order.\<close>

fun readdir :: "listingOrder \<Rightarrow> entries \<Rightarrow> string list \<Rightarrow> errno + string list" where
  "readdir ord es [] = Inr (listing ord (map fst es))"
| "readdir ord es (n # p) =
     (case map_of es n of
        None \<Rightarrow> Inl ENOENT
      | Some (File t c) \<Rightarrow> Inl ENOTDIR
      | Some (Dir t sub) \<Rightarrow> readdir ord sub p)"

text \<open>
  A directory whose set of names changed gets the modification time \<open>now\<close>; a change
  further down leaves its time as it was.
\<close>

definition restamp :: "int \<Rightarrow> int \<Rightarrow> entries \<Rightarrow> entries \<Rightarrow> node" where
  "restamp now t sub sub' = Dir (if map fst sub' = map fst sub then t else now) sub'"

text \<open>\<open>fsExtra.ensureDir\<close>: creates the missing directories, keeps an existing one.\<close>

fun ensureDir :: "int \<Rightarrow> string list \<Rightarrow> entries \<Rightarrow> errno + entries" where
  "ensureDir now [] es = Inr es"
| "ensureDir now (n # p) es =
     (case map_of es n of
        None \<Rightarrow>
          (case ensureDir now p [] of
             Inl e \<Rightarrow> Inl e
           | Inr sub \<Rightarrow> Inr (AList.update n (Dir now sub) es))
      | Some (File t c) \<Rightarrow> Inl (if p = [] then EEXIST else ENOTDIR)
      | Some (Dir t sub) \<Rightarrow>
          (case ensureDir now p sub of
             Inl e \<Rightarrow> Inl e
           | Inr sub' \<Rightarrow> Inr (AList.update n (restamp now t sub sub') es)))"

text \<open>
  \<open>fs.writeFile\<close>: creates or replaces a regular file; it does not create the parent
  directory, and rejects with \<open>ENOENT\<close> when that is missing. Where a new name comes in
  a listing of the directory is for \<open>listing\<close> to say, not for the place of the entry
  in the list.
\<close>

fun writeFile :: "int \<Rightarrow> string list \<Rightarrow> string \<Rightarrow> entries \<Rightarrow> errno + entries" where
  "writeFile now [] d es = Inl EISDIR"
| "writeFile now [n] d es =
     (case map_of es n of
        Some (Dir t sub) \<Rightarrow> Inl EISDIR
      | _ \<Rightarrow> Inr (AList.update n (File now d) es))"
| "writeFile now (n # p) d es =
     (case map_of es n of
        None \<Rightarrow> Inl ENOENT
      | Some (File t c) \<Rightarrow> Inl ENOTDIR
      | Some (Dir t sub) \<Rightarrow>
          (case writeFile now p d sub of
             Inl e \<Rightarrow> Inl e
           | Inr sub' \<Rightarrow> Inr (AList.update n (restamp now t sub sub') es)))"

text \<open>\<open>fsExtra.remove\<close>: deletes a file or a whole directory; a missing path is no error.\<close>

fun remove :: "int \<Rightarrow> string list \<Rightarrow> entries \<Rightarrow> entries" where
  "remove now [] es = es"
| "remove now [n] es = AList.delete n es"
| "remove now (n # p) es =
     (case map_of es n of
        Some (Dir t sub) \<Rightarrow> AList.update n (restamp now t sub (remove now p sub)) es
      | _ \<Rightarrow> es)"

text \<open>
  \<open>oldFs.createWriteStream(path, { flags: 'a' })\<close>: opens for appending, creating an empty
  file when there is none. \<open>streamWrite\<close> is one \<open>outputStream.write(chunk)\<close> for the
  whole content of an input file; an empty input file emits no \<open>data\<close> event.
\<close>

fun createWriteStream :: "int \<Rightarrow> string list \<Rightarrow> entries \<Rightarrow> errno + entries" where
  "createWriteStream now [] es = Inl EISDIR"
| "createWriteStream now [n] es =
     (case map_of es n of
        None \<Rightarrow> Inr (AList.update n (File now []) es)
      | Some (File t c) \<Rightarrow> Inr es
      | Some (Dir t sub) \<Rightarrow> Inl EISDIR)"
| "createWriteStream now (n # p) es =
     (case map_of es n of
        None \<Rightarrow> Inl ENOENT
      | Some (File t c) \<Rightarrow> Inl ENOTDIR
      | Some (Dir t sub) \<Rightarrow>
          (case createWriteStream now p sub of
             Inl e \<Rightarrow> Inl e
           | Inr sub' \<Rightarrow> Inr (AList.update n (restamp now t sub sub') es)))"

fun streamWrite :: "int \<Rightarrow> string list \<Rightarrow> string \<Rightarrow> entries \<Rightarrow> errno + entries" where
  "streamWrite now [] d es = Inl EISDIR"
| "streamWrite now [n] d es =
     (case map_of es n of
        None \<Rightarrow> Inl ENOENT
      | Some (File t c) \<Rightarrow> Inr (if d = [] then es else AList.update n (File now (c @ d)) es)
      | Some (Dir t sub) \<Rightarrow> Inl EISDIR)"
| "streamWrite now (n # p) d es =
     (case map_of es n of
        None \<Rightarrow> Inl ENOENT
      | Some (File t c) \<Rightarrow> Inl ENOTDIR
      | Some (Dir t sub) \<Rightarrow>
          (case streamWrite now p d sub of
             Inl e \<Rightarrow> Inl e
           | Inr sub' \<Rightarrow> Inr (AList.update n (Dir t sub') es)))"

subsection \<open>Request, options and responses\<close>

record uploadInfo =
  uploadId :: string
  uploadSize :: int
  part :: int
  total' :: int

text \<open>
  What \<open>loadUploadFiles\<close> reads from the request: the HTTP method, the result of
  \<open>validateFrom\<close>, the form values \<open>astroBigFileUpload\<close> and \<open>info\<close> (\<open>None\<close> when the
  text is not JSON for an object with a string and three numbers), and the payload of the
  form value \<open>file\<close> (\<open>None\<close> when it is not a \<open>File\<close>).
\<close>

record request =
  reqMethod :: string
  validateFrom :: bool
  astroBigFileUpload :: "string option"
  reqInfo :: "uploadInfo option"
  reqFile :: "string option"

text \<open>
  \<open>LoadUploadFilesOptions\<close> after the defaults are merged in. \<open>onFinished\<close> records
  whether a completion hook is configured; its call is part of the outcome.
\<close>

record options =
  allowUpload :: "(string \<Rightarrow> uploadInfo \<Rightarrow> bool) option"
  onFinished :: bool
  maxUploadTime :: int
  maxUploadSize :: int
  maxDirectorySize :: int

text \<open>
  \<open>NotHandled\<close> is \<open>return false\<close>; \<open>Json ok error finished\<close> is
  \<open>Response.json({ ok, error, finished })\<close> with the absent keys \<open>None\<close>.
\<close>

datatype response = NotHandled | Json bool "string option" "bool option"

text \<open>
  An outcome is the exception that left the function, or the value it returned together
  with the arguments of the call of \<open>onFinished\<close>, if one was made.
\<close>

datatype outcome = Raised errno | Returned response "(string \<times> nat) option"

subsection \<open>Names\<close>

text \<open>The decimal text a template literal gives for an integer.\<close>

fun showNat :: "nat \<Rightarrow> string" where
  "showNat n =
     (if n < 10 then [char_of (48 + n)]
      else showNat (n div 10) @ [char_of (48 + n mod 10)])"

definition showInt :: "int \<Rightarrow> string" where
  "showInt i = (if i < 0 then CHR ''-'' # showNat (nat (- i)) else showNat (nat i))"

definition chunkName :: "int \<Rightarrow> int \<Rightarrow> string" where
  "chunkName i tot = showInt i @ ''-'' @ showInt tot"

definition stagingName :: "string \<Rightarrow> string" where
  "stagingName uid = ''chunks_'' @ uid"

subsection \<open>Validation of the metadata\<close>

definition isHex :: "char \<Rightarrow> bool" where
  "isHex c = (c \<in> set ''0123456789abcdefABCDEF'')"

text \<open>
  Modelled from the spec: the pattern behind \<open>z.string().uuid()\<close> is code of the zod
  library; the identifier is a UUID string, five groups of 8, 4, 4, 4 and 12 hexadecimal
  digits separated by hyphens.
\<close>

definition isUuid :: "string \<Rightarrow> bool" where
  "isUuid s =
     (length s = 36 \<and>
      list_all isHex (take 8 s) \<and> s ! 8 = CHR ''-'' \<and>
      list_all isHex (take 4 (drop 9 s)) \<and> s ! 13 = CHR ''-'' \<and>
      list_all isHex (take 4 (drop 14 s)) \<and> s ! 18 = CHR ''-'' \<and>
      list_all isHex (take 4 (drop 19 s)) \<and> s ! 23 = CHR ''-'' \<and>
      list_all isHex (drop 24 s))"

definition zodValidationInfo :: "uploadInfo option \<Rightarrow> uploadInfo option" where
  "zodValidationInfo raw =
     (case raw of
        None \<Rightarrow> None
      | Some d \<Rightarrow>
          if isUuid (uploadId d) \<and> 1 \<le> uploadSize d \<and> 1 \<le> part d \<and> 1 \<le> total' d
          then Some d else None)"

subsection \<open>The helpers of the module\<close>

text \<open>\<open>isFile()\<close> of a \<open>Stats\<close> object.\<close>

definition isFile :: "node \<Rightarrow> bool" where
  "isFile st = (case st of File t c \<Rightarrow> True | Dir t sub \<Rightarrow> False)"

text \<open>The \<open>catch\<close> turns a \<open>stat\<close> that rejects into \<open>false\<close>.\<close>

definition checkIfFileExists :: "entries \<Rightarrow> string list \<Rightarrow> bool" where
  "checkIfFileExists s filePath =
     (case stat s filePath of
        None \<Rightarrow> False
      | Some file \<Rightarrow> isFile file)"

function totalDirectorySize :: "entries \<Rightarrow> int" where
  "totalDirectorySize es =
     sum_list (map (\<lambda>(n, x). case x of
                                Dir t sub \<Rightarrow> totalDirectorySize sub
                              | File t c \<Rightarrow> int (length c)) es)"
  by pat_completeness auto
termination
proof (relation "measure (size_list (size_prod (\<lambda>_. 0) size))")
  show "wf (measure (size_list (size_prod (\<lambda>_. 0) size)))"
    by simp
next
  fix es :: entries and z :: "string \<times> node" and n x t sub
  assume "z \<in> set es" and "(n, x) = z" and "x = Dir t sub"
  then have "(n, Dir t sub) \<in> set es"
    by simp
  then have "size_list (size_prod (\<lambda>_. 0) size) sub < size_list (size_prod (\<lambda>_. 0) size) es"
    by (induction es) auto
  then show "(sub, es) \<in> measure (size_list (size_prod (\<lambda>_. 0) size))"
    by simp
qed

text \<open>
  The loop of \<open>deleteOldUploads\<close> over the names read at its start. A \<open>stat\<close> that
  rejects ends the loop with the exception and the storage reached so far.
\<close>

fun deleteOldUploadsLoop :: "int \<Rightarrow> int \<Rightarrow> string list \<Rightarrow> entries \<Rightarrow> errno option \<times> entries" where
  "deleteOldUploadsLoop now maxT [] s = (None, s)"
| "deleteOldUploadsLoop now maxT (f # fs) s =
     (case stat s [f] of
        None \<Rightarrow> (Some ENOENT, s)
      | Some st \<Rightarrow>
          deleteOldUploadsLoop now maxT fs
            (if now - mtime st > maxT then remove now [f] s else s))"

definition deleteOldUploads ::
  "listingOrder \<Rightarrow> int \<Rightarrow> int \<Rightarrow> entries \<Rightarrow> errno option \<times> entries" where
  "deleteOldUploads ord now maxT s =
     (case readdir ord s [] of
        Inl e \<Rightarrow> (Some e, s)
      | Inr files \<Rightarrow> deleteOldUploadsLoop now maxT files s)"

text \<open>The closure \<open>sendError\<close>: writes the marker, then answers.\<close>

definition sendError :: "int \<Rightarrow> string \<Rightarrow> string \<Rightarrow> entries \<Rightarrow> outcome \<times> entries" where
  "sendError now uploadDir errorMessage s =
     (case writeFile now [uploadDir, ''error.txt''] errorMessage s of
        Inl e \<Rightarrow> (Raised e, s)
      | Inr s' \<Rightarrow> (Returned (Json False (Some errorMessage) None) None, s'))"

subsection \<open>\<open>loadUploadFiles\<close>\<close>

text \<open>
  Lines 76 to 95: the four checks on admission and size. \<open>None\<close> when all of them pass.
\<close>

definition quotaGuard ::
  "options \<Rightarrow> uploadInfo \<Rightarrow> string \<Rightarrow> int \<Rightarrow> entries \<Rightarrow> (outcome \<times> entries) option" where
  "quotaGuard opts data uploadFile now s =
     (let uploadDir = stagingName (uploadId data) in
      if (case allowUpload opts of None \<Rightarrow> False | Some allow \<Rightarrow> \<not> allow uploadFile data)
      then Some (sendError now uploadDir ''File not allowed'' s)
      else if uploadSize data > maxUploadSize opts
      then Some (sendError now uploadDir ''File size exceeded'' s)
      else if totalDirectorySize s + max (uploadSize data) (int (length uploadFile))
                > maxDirectorySize opts
      then Some (sendError now uploadDir ''Directory size exceeded'' s)
      else if totalDirectorySize s + uploadSize data > maxUploadSize opts
      then Some (sendError now uploadDir ''Upload size exceeded'' (remove now [uploadDir] s))
      else None)"

text \<open>
  Lines 47 to 100: everything before the chunk is stored. \<open>Inl\<close> is the outcome of a
  submission that ends here, \<open>Inr\<close> the metadata, payload and storage of one that goes on.
\<close>

definition admission ::
  "listingOrder \<Rightarrow> options \<Rightarrow> request \<Rightarrow> int \<Rightarrow> entries \<Rightarrow>
     (outcome \<times> entries) + (uploadInfo \<times> string \<times> entries)" where
  "admission ord opts req now s0 =
     (if reqMethod req \<noteq> ''POST'' \<or> \<not> validateFrom req then Inl (Returned NotHandled None, s0)
      else if astroBigFileUpload req \<noteq> Some ''true'' then Inl (Returned NotHandled None, s0)
      else
        (case deleteOldUploads ord now (maxUploadTime opts) s0 of
           (Some e, s1) \<Rightarrow> Inl (Raised e, s1)
         | (None, s1) \<Rightarrow>
             (case (zodValidationInfo (reqInfo req), reqFile req) of
                (Some data, Some uploadFile) \<Rightarrow>
                  (case ensureDir now [stagingName (uploadId data)] s1 of
                     Inl e \<Rightarrow> Inl (Raised e, s1)
                   | Inr s2 \<Rightarrow>
                       (case quotaGuard opts data uploadFile now s2 of
                          Some r \<Rightarrow> Inl r
                        | None \<Rightarrow>
                            if checkIfFileExists s2 [uploadId data]
                            then Inl (sendError now (stagingName (uploadId data))
                                        ''Upload already exists'' s2)
                            else Inr (data, uploadFile, s2)))
              | _ \<Rightarrow> Inl (Returned (Json False (Some ''Invalid request'') None) None, s1))))"

text \<open>Lines 103 to 106: the chunk is written unless a file of its name is there.\<close>

definition storeChunk :: "uploadInfo \<Rightarrow> string \<Rightarrow> int \<Rightarrow> entries \<Rightarrow> errno + entries" where
  "storeChunk data uploadFile now s =
     (let chunkSavePath = [stagingName (uploadId data), chunkName (part data) (total' data)] in
      if \<not> checkIfFileExists s chunkSavePath
      then writeFile now chunkSavePath uploadFile s
      else Inr s)"

text \<open>Lines 113 to 117: the first index whose chunk name is not in the listing.\<close>

function findMissing :: "int \<Rightarrow> int \<Rightarrow> string list \<Rightarrow> int option" where
  "findMissing i tot files =
     (if i \<le> tot
      then (if chunkName i tot \<notin> set files then Some i else findMissing (i + 1) tot files)
      else None)"
  by pat_completeness auto
termination
  by (relation "measure (\<lambda>(i, tot, files). nat (tot + 1 - i))") auto

text \<open>
  Lines 120 to 131: every name of the listing, in listing order, is read, written to the
  output stream and removed.
\<close>

fun copyChunks ::
  "int \<Rightarrow> string \<Rightarrow> string list \<Rightarrow> string list \<Rightarrow> entries \<Rightarrow> errno option \<times> entries" where
  "copyChunks now uploadDir uploadFilePath [] s = (None, s)"
| "copyChunks now uploadDir uploadFilePath (f # fs) s =
     (case stat s [uploadDir, f] of
        None \<Rightarrow> (Some ENOENT, s)
      | Some (Dir t sub) \<Rightarrow> (Some EISDIR, s)
      | Some (File t c) \<Rightarrow>
          (case streamWrite now uploadFilePath c s of
             Inl e \<Rightarrow> (Some e, s)
           | Inr s' \<Rightarrow>
               copyChunks now uploadDir uploadFilePath fs (remove now [uploadDir, f] s')))"

text \<open>Lines 112 to 135: the completeness check and the assembly.\<close>

definition completeUpload ::
  "listingOrder \<Rightarrow> options \<Rightarrow> uploadInfo \<Rightarrow> int \<Rightarrow> entries \<Rightarrow> outcome \<times> entries" where
  "completeUpload ord opts data now s =
     (let uploadDir = stagingName (uploadId data) in
      case readdir ord s [uploadDir] of
        Inl e \<Rightarrow> (Raised e, s)
      | Inr files \<Rightarrow>
          (case findMissing 1 (total' data) files of
             Some i \<Rightarrow>
               sendError now uploadDir (''Missing chunk '' @ showInt i @ '', upload failed'') s
           | None \<Rightarrow>
               (case createWriteStream now [uploadId data] s of
                  Inl e \<Rightarrow> (Raised e, s)
                | Inr s1 \<Rightarrow>
                    (case copyChunks now uploadDir [uploadId data] files s1 of
                       (Some e, s2) \<Rightarrow> (Raised e, s2)
                     | (None, s2) \<Rightarrow>
                         (Returned (Json True None (Some True))
                            (if onFinished opts then Some (uploadId data, length files) else None),
                          remove now [uploadDir] s2)))))"

definition loadUploadFiles ::
  "listingOrder \<Rightarrow> options \<Rightarrow> request \<Rightarrow> int \<Rightarrow> entries \<Rightarrow> outcome \<times> entries" where
  "loadUploadFiles ord opts req now s0 =
     (case admission ord opts req now s0 of
        Inl r \<Rightarrow> r
      | Inr (data, uploadFile, s) \<Rightarrow>
          (case storeChunk data uploadFile now s of
             Inl e \<Rightarrow> (Raised e, s)
           | Inr s' \<Rightarrow>
               if part data \<noteq> total' data then (Returned (Json True None None) None, s')
               else completeUpload ord opts data now s'))"

text \<open>
  The bytes the read stream of the copy loop delivers for the entry \<open>n\<close> of a directory
  with the entries \<open>es\<close>.
\<close>

definition fileContent :: "entries \<Rightarrow> string \<Rightarrow> string" where
  "fileContent es n = (case map_of es n of Some (File t c) \<Rightarrow> c | _ \<Rightarrow> [])"


subsection \<open>Example data\<close>

text \<open>
  One identifier, the options with small limits and a well-formed submission with a
  declared size of 9 bytes, used where a property is run on a concrete input.
\<close>

definition exampleId :: string where
  "exampleId = ''123e4567-e89b-12d3-a456-426614174000''"

definition exampleOptions :: options where
  "exampleOptions = \<lparr> allowUpload = None, onFinished = True, maxUploadTime = 5400000,
      maxUploadSize = 1000, maxDirectorySize = 5000 \<rparr>"

definition exampleInfo :: "int \<Rightarrow> int \<Rightarrow> uploadInfo" where
  "exampleInfo p t = \<lparr> uploadId = exampleId, uploadSize = 9, part = p, total' = t \<rparr>"

definition exampleRequest :: "int \<Rightarrow> int \<Rightarrow> string \<Rightarrow> request" where
  "exampleRequest p t d = \<lparr> reqMethod = ''POST'', validateFrom = True,
      astroBigFileUpload = Some ''true'', reqInfo = Some (exampleInfo p t), reqFile = Some d \<rparr>"

text \<open>
  Two listing orders: by creation (all names rank alike), and by name, bytewise (a name
  ranks by the number of names before it).
\<close>

definition byCreation :: listingOrder where
  "byCreation ns n = 0"

fun nameLess :: "string \<Rightarrow> string \<Rightarrow> bool" where
  "nameLess [] [] = False"
| "nameLess [] (y # ys) = True"
| "nameLess (x # xs) [] = False"
| "nameLess (x # xs) (y # ys) =
     ((of_char x :: nat) < of_char y \<or> (x = y \<and> nameLess xs ys))"

definition byName :: listingOrder where
  "byName ns n = length (filter (\<lambda>m. nameLess m n) ns)"

section \<open>Properties\<close>

subsection \<open>Association lists and names\<close>

lemma stagingName_neq [simp]: "stagingName u \<noteq> u" "u \<noteq> stagingName u"
proof -
  have "length (stagingName u) \<noteq> length u" by (simp add: stagingName_def)
  then show "stagingName u \<noteq> u" by metis
  then show "u \<noteq> stagingName u" by metis
qed

lemma update_update_other:
  "a \<noteq> b \<Longrightarrow> AList.update a x (AList.update b y (AList.update a x' l)) = AList.update b y (AList.update a x l)"
  by (induction l) auto

lemma delete_as_filter: "AList.delete k s = filter (\<lambda>(n, x). n \<noteq> k) s"
  by (induction s) auto

lemma deleteOldUploadsLoop_filter:
  "distinct (map fst s) \<Longrightarrow> distinct fs \<Longrightarrow> set fs \<subseteq> fst ` set s \<Longrightarrow>
   deleteOldUploadsLoop now maxT fs s =
     (None, filter (\<lambda>(n, x). n \<in> set fs \<longrightarrow> \<not> now - mtime x > maxT) s)"
proof (induction fs arbitrary: s)
  case Nil
  then show ?case by simp
next
  case (Cons f fs)
  from Cons.prems(3) have "f \<in> fst ` set s" by simp
  then obtain st0 where "(f, st0) \<in> set s" by auto
  with Cons.prems(1) have "map_of s f = Some st0" by (rule map_of_is_SomeI)
  then obtain st where st: "map_of s f = Some st" ..
   show ?case
  proof (cases "now - mtime st > maxT")
    case True
    have d: "distinct (map fst (AList.delete f s))" using Cons.prems(1) by (rule distinct_delete)
    have sub: "set fs \<subseteq> fst ` set (AList.delete f s)"
    proof
      fix g assume g: "g \<in> set fs"
      with Cons.prems(3) obtain y where "(g, y) \<in> set s" by auto
      moreover from g Cons.prems(2) have "g \<noteq> f" by auto
      ultimately have "(g, y) \<in> set (AList.delete f s)" by (simp add: delete_as_filter)
      then show "g \<in> fst ` set (AList.delete f s)" by force
    qed
    have "deleteOldUploadsLoop now maxT (f # fs) s = deleteOldUploadsLoop now maxT fs (AList.delete f s)"
      using st True by simp
    also have "\<dots> = (None, filter (\<lambda>(n, x). n \<in> set fs \<longrightarrow> \<not> now - mtime x > maxT) (AList.delete f s))"
      using Cons.IH[OF d _ sub] Cons.prems(2) by simp
    also have "filter (\<lambda>(n, x). n \<in> set fs \<longrightarrow> \<not> now - mtime x > maxT) (AList.delete f s)
       = filter (\<lambda>(n, x). n \<in> set (f # fs) \<longrightarrow> \<not> now - mtime x > maxT) s"
      unfolding delete_as_filter filter_filter
    proof (rule filter_cong[OF refl])
      fix e assume e: "e \<in> set s"
      obtain n x where nx: "e = (n, x)" by (cases e)
      have "n = f \<Longrightarrow> x = st" using e nx st Cons.prems(1) by (metis map_of_is_SomeI option.inject)
      then show "(case e of (n, x) \<Rightarrow> n \<noteq> f) \<and> (case e of (n, x) \<Rightarrow> n \<in> set fs \<longrightarrow> \<not> now - mtime x > maxT)
          \<longleftrightarrow> (case e of (n, x) \<Rightarrow> n \<in> set (f # fs) \<longrightarrow> \<not> now - mtime x > maxT)"
        using nx True Cons.prems(2) by auto
    qed
    finally show ?thesis .
  next
    case False
    have "deleteOldUploadsLoop now maxT (f # fs) s = deleteOldUploadsLoop now maxT fs s"
      using st False by simp
    also have "\<dots> = (None, filter (\<lambda>(n, x). n \<in> set fs \<longrightarrow> \<not> now - mtime x > maxT) s)"
      using Cons.IH[of s] Cons.prems by simp
    also have "filter (\<lambda>(n, x). n \<in> set fs \<longrightarrow> \<not> now - mtime x > maxT) s
       = filter (\<lambda>(n, x). n \<in> set (f # fs) \<longrightarrow> \<not> now - mtime x > maxT) s"
    proof (rule filter_cong[OF refl])
      fix e assume e: "e \<in> set s"
      obtain n x where nx: "e = (n, x)" by (cases e)
      have "n = f \<Longrightarrow> x = st" using e nx st Cons.prems(1) by (metis map_of_is_SomeI option.inject)
      then show "(case e of (n, x) \<Rightarrow> n \<in> set fs \<longrightarrow> \<not> now - mtime x > maxT)
          \<longleftrightarrow> (case e of (n, x) \<Rightarrow> n \<in> set (f # fs) \<longrightarrow> \<not> now - mtime x > maxT)"
        using nx False by auto
    qed
    finally show ?thesis .
  qed
qed

lemma set_listing [simp]: "set (listing ord ns) = set ns"
  by (simp add: listing_def)

lemma distinct_listing [simp]: "distinct (listing ord ns) = distinct ns"
  by (simp add: listing_def)

lemma length_listing [simp]: "length (listing ord ns) = length ns"
  by (simp add: listing_def)

lemma deleteOldUploads_filter:
  assumes "distinct (map fst s)"
  shows "deleteOldUploads ord now maxT s =
           (None, filter (\<lambda>(n, x). \<not> now - mtime x > maxT) s)"
proof -
  have "deleteOldUploads ord now maxT s =
          deleteOldUploadsLoop now maxT (listing ord (map fst s)) s"
    by (simp add: deleteOldUploads_def)
  also have "\<dots> = (None, filter (\<lambda>(n, x). n \<in> set (listing ord (map fst s)) \<longrightarrow>
                                     \<not> now - mtime x > maxT) s)"
    using assms by (intro deleteOldUploadsLoop_filter) auto
  also have "filter (\<lambda>(n, x). n \<in> set (listing ord (map fst s)) \<longrightarrow>
                        \<not> now - mtime x > maxT) s
      = filter (\<lambda>(n, x). \<not> now - mtime x > maxT) s"
    by (rule filter_cong) force+
  finally show ?thesis .
qed

declare findMissing.simps [simp del]

lemma findMissing_None:
  "findMissing i tot files = None \<longleftrightarrow> (\<forall>j. i \<le> j \<and> j \<le> tot \<longrightarrow> chunkName j tot \<in> set files)"
proof (induction i tot files rule: findMissing.induct)
  case (1 i tot files)
  show ?case
  proof (cases "i \<le> tot \<and> chunkName i tot \<in> set files")
    case True
    then have "findMissing i tot files = findMissing (i + 1) tot files"
      by (subst findMissing.simps) simp
    moreover have "(\<forall>j. i \<le> j \<and> j \<le> tot \<longrightarrow> chunkName j tot \<in> set files)
        \<longleftrightarrow> (\<forall>j. i + 1 \<le> j \<and> j \<le> tot \<longrightarrow> chunkName j tot \<in> set files)"
      using True by (metis add1_zle_eq order_le_less)
    ultimately show ?thesis using 1 True by simp
  next
    case False
    then show ?thesis by (subst findMissing.simps) auto
  qed
qed

lemma findMissing_Some:
  "findMissing i tot files = Some m \<Longrightarrow>
     i \<le> m \<and> m \<le> tot \<and> chunkName m tot \<notin> set files \<and>
     (\<forall>j. i \<le> j \<and> j < m \<longrightarrow> chunkName j tot \<in> set files)"
proof (induction i tot files rule: findMissing.induct)
  case (1 i tot files)
  show ?case
  proof (cases "i \<le> tot \<and> chunkName i tot \<in> set files")
    case True
    then have "findMissing (i + 1) tot files = Some m"
      using "1.prems" by (subst (asm) findMissing.simps) simp
    with 1 True have ih: "i + 1 \<le> m \<and> m \<le> tot \<and> chunkName m tot \<notin> set files \<and>
        (\<forall>j. i + 1 \<le> j \<and> j < m \<longrightarrow> chunkName j tot \<in> set files)" by simp
    have "\<And>j. i \<le> j \<Longrightarrow> j < m \<Longrightarrow> chunkName j tot \<in> set files"
    proof -
      fix j assume "i \<le> j" "j < m"
      then show "chunkName j tot \<in> set files" using ih True by (cases "j = i") auto
    qed
    with ih show ?thesis by auto
  next
    case False
    with "1.prems" show ?thesis by (subst (asm) findMissing.simps) (auto split: if_splits)
  qed
qed

lemma fileContent_delete:
  "n \<noteq> f \<Longrightarrow> fileContent (AList.delete f es) n = fileContent es n"
  by (simp add: fileContent_def)

lemma copyChunks_all:
  assumes "staging \<noteq> uid"
  shows "distinct fs \<Longrightarrow> set fs \<subseteq> fst ` set es \<Longrightarrow> distinct (map fst es) \<Longrightarrow>
         list_all (\<lambda>(n, x). isFile x) es \<Longrightarrow>
         \<exists>tj. copyChunks now staging [uid] fs
                (AList.update staging (Dir ti es) (AList.update uid (File now acc) s)) =
              (None, AList.update staging (Dir tj (filter (\<lambda>(n, x). n \<notin> set fs) es))
                       (AList.update uid (File now (acc @ concat (map (fileContent es) fs))) s))"
proof (induction fs arbitrary: es ti acc)
  case Nil
  then show ?case by auto
next
  case (Cons f fs)
  from Cons.prems(2) obtain x where fx: "(f, x) \<in> set es" by auto
  from Cons.prems(3) fx have mf: "map_of es f = Some x" by (rule map_of_is_SomeI)
  from fx Cons.prems(4) have "isFile x" by (auto simp: list_all_iff)
  then obtain tf c where x: "x = File tf c" by (cases x) (auto simp: isFile_def)
  let ?S = "AList.update staging (Dir ti es) (AList.update uid (File now acc) s)"
  let ?es' = "AList.delete f es"
  have st: "stat ?S [staging, f] = Some (File tf c)"
    using mf x by (simp add: update_conv')
  have uidS: "map_of ?S uid = Some (File now acc)"
    using assms by (simp add: update_conv')
  have sw: "streamWrite now [uid] c ?S =
      Inr (AList.update staging (Dir ti es) (AList.update uid (File now (acc @ c)) s))"
  proof (cases "c = []")
    case True
    then show ?thesis using uidS by simp
  next
    case False
    then show ?thesis using uidS assms by (simp add: update_update_other)
  qed
  have names: "map fst ?es' \<noteq> map fst es"
  proof
    assume "map fst ?es' = map fst es"
    then have "fst ` set ?es' = fst ` set es" by (metis set_map)
    moreover have "f \<notin> fst ` set ?es'" by (rule delete_notin_dom)
    ultimately show False using fx by force
  qed
  have rm: "remove now [staging, f]
        (AList.update staging (Dir ti es) (AList.update uid (File now (acc @ c)) s))
        = AList.update staging (Dir now ?es') (AList.update uid (File now (acc @ c)) s)"
    using names by (simp add: update_conv' restamp_def)
  have d: "distinct fs" and nf: "f \<notin> set fs" using Cons.prems(1) by auto
  have sub: "set fs \<subseteq> fst ` set ?es'"
  proof
    fix g assume g: "g \<in> set fs"
    with Cons.prems(2) obtain y where "(g, y) \<in> set es" by auto
    moreover from g nf have "g \<noteq> f" by auto
    ultimately have "(g, y) \<in> set ?es'" by (simp add: delete_as_filter)
    then show "g \<in> fst ` set ?es'" by force
  qed
  have d': "distinct (map fst ?es')" using Cons.prems(3) by (rule distinct_delete)
  have fl': "list_all (\<lambda>(n, x). isFile x) ?es'"
    using Cons.prems(4) by (auto simp: list_all_iff delete_as_filter)
  from Cons.IH[OF d sub d' fl', of now "acc @ c"] obtain tj where ih:
    "copyChunks now staging [uid] fs
       (AList.update staging (Dir now ?es') (AList.update uid (File now (acc @ c)) s)) =
     (None, AList.update staging (Dir tj (filter (\<lambda>(n, x). n \<notin> set fs) ?es'))
              (AList.update uid (File now ((acc @ c) @ concat (map (fileContent ?es') fs))) s))"
    ..
  have c1: "map (fileContent ?es') fs = map (fileContent es) fs"
    using nf by (intro map_cong refl fileContent_delete) auto
  have c2: "fileContent es f = c" using mf x by (simp add: fileContent_def)
  have c3: "filter (\<lambda>(n, x). n \<notin> set fs) ?es' = filter (\<lambda>(n, x). n \<notin> set (f # fs)) es"
    unfolding delete_as_filter filter_filter by (rule filter_cong) auto
  have "copyChunks now staging [uid] (f # fs) ?S =
      copyChunks now staging [uid] fs
       (AList.update staging (Dir now ?es') (AList.update uid (File now (acc @ c)) s))"
    using st sw rm by simp
  with ih c1 c2 c3 show ?case by auto
qed

lemma admission_InrD:
  "admission ord opts req now s0 = Inr (data, f, s) \<Longrightarrow>
     reqMethod req = ''POST'' \<and> validateFrom req \<and> astroBigFileUpload req = Some ''true'' \<and>
     zodValidationInfo (reqInfo req) = Some data \<and> reqFile req = Some f \<and>
     (\<exists>s1. deleteOldUploads ord now (maxUploadTime opts) s0 = (None, s1) \<and>
           ensureDir now [stagingName (uploadId data)] s1 = Inr s) \<and>
     quotaGuard opts data f now s = None \<and> \<not> checkIfFileExists s [uploadId data]"
  by (auto simp: admission_def split: if_splits prod.splits option.splits sum.splits)

lemma admission_gated:
  assumes "reqMethod req = ''POST''" "validateFrom req" "astroBigFileUpload req = Some ''true''"
    and "deleteOldUploads ord now (maxUploadTime opts) s0 = (None, s1)"
    and "zodValidationInfo (reqInfo req) = Some data" "reqFile req = Some f"
    and "ensureDir now [stagingName (uploadId data)] s1 = Inr s2"
  shows "admission ord opts req now s0 =
     (case quotaGuard opts data f now s2 of
        Some r \<Rightarrow> Inl r
      | None \<Rightarrow> if checkIfFileExists s2 [uploadId data]
                then Inl (sendError now (stagingName (uploadId data)) ''Upload already exists'' s2)
                else Inr (data, f, s2))"
  using assms by (simp add: admission_def)

lemma sendError_ok:
  assumes "map_of s d = Some (Dir t es)" and "\<forall>t' sub. map_of es ''error.txt'' \<noteq> Some (Dir t' sub)"
  shows "sendError now d msg s =
     (Returned (Json False (Some msg) None) None,
      AList.update d (restamp now t es (AList.update ''error.txt'' (File now msg) es)) s)"
  using assms by (auto simp: sendError_def split: option.splits node.splits)

lemma sendError_no_dir:
  "map_of s d = None \<Longrightarrow> sendError now d msg s = (Raised ENOENT, s)"
  by (simp add: sendError_def)

lemma completeUpload_assembles:
  assumes st: "map_of s (stagingName (uploadId data)) = Some (Dir t es)"
    and fm: "findMissing 1 (total' data) (listing ord (map fst es)) = None"
    and nofinal: "map_of s (uploadId data) = None"
    and dist: "distinct (map fst es)"
    and files: "list_all (\<lambda>(n, x). isFile x) es"
  shows "completeUpload ord opts data now s =
     (Returned (Json True None (Some True))
        (if onFinished opts then Some (uploadId data, length es) else None),
      AList.delete (stagingName (uploadId data))
        (AList.update (uploadId data)
           (File now (concat (map (fileContent es) (listing ord (map fst es))))) s))"
proof -
  let ?d = "stagingName (uploadId data)" and ?u = "uploadId data"
  let ?fs = "listing ord (map fst es)"
  let ?s1 = "AList.update ?u (File now []) s"
  have ne: "?d \<noteq> ?u" by simp
  have "map_of ?s1 ?d = Some (Dir t es)" using st ne by (simp add: update_conv')
  then have s1: "?s1 = AList.update ?d (Dir t es) ?s1" by (simp add: update_triv)
  have dfs: "distinct ?fs" using dist by simp
  have sub: "set ?fs \<subseteq> fst ` set es" by simp
  from copyChunks_all[OF ne dfs sub dist files, of now t "[]" s] obtain tj where
    cp: "copyChunks now ?d [?u] ?fs (AList.update ?d (Dir t es) ?s1) =
      (None, AList.update ?d (Dir tj (filter (\<lambda>(n, x). n \<notin> set ?fs) es))
                  (AList.update ?u (File now (concat (map (fileContent es) ?fs))) s))"
    by auto
  have cp': "copyChunks now ?d [?u] ?fs ?s1 =
      (None, AList.update ?d (Dir tj (filter (\<lambda>(n, x). n \<notin> set ?fs) es))
                  (AList.update ?u (File now (concat (map (fileContent es) ?fs))) s))"
    using cp s1 by simp
  have rd: "readdir ord s [?d] = Inr ?fs" using st by simp
  have cw: "createWriteStream now [?u] s = Inr ?s1" using nofinal by simp
  show ?thesis
    unfolding completeUpload_def Let_def rd using fm cw cp'
    by (simp add: delete_update_same)
qed

subsection \<open>What a submission leaves alone\<close>

lemma ensureDir_other:
  "ensureDir now [d] s = Inr s' \<Longrightarrow> k \<noteq> d \<Longrightarrow> map_of s' k = map_of s k"
  by (auto simp: update_conv' split: option.splits node.splits)

lemma remove_other:
  "k \<noteq> d \<Longrightarrow> map_of (remove now (d # p) s) k = map_of s k"
  by (cases p) (auto simp: delete_conv' update_conv' split: option.splits node.splits)

lemma writeFile_other:
  "writeFile now (d # n # p) c s = Inr s' \<Longrightarrow> k \<noteq> d \<Longrightarrow> map_of s' k = map_of s k"
  by (auto simp: update_conv' split: option.splits node.splits sum.splits)

lemma sendError_other:
  "k \<noteq> d \<Longrightarrow> map_of (snd (sendError now d msg s)) k = map_of s k"
  by (auto simp: sendError_def simp del: writeFile.simps dest: writeFile_other
           split: sum.splits)

lemma quotaGuard_other:
  "quotaGuard opts data f now s = Some r \<Longrightarrow> k \<noteq> stagingName (uploadId data) \<Longrightarrow>
     map_of (snd r) k = map_of s k"
  by (auto simp: quotaGuard_def Let_def sendError_other remove_other split: if_splits)

lemma storeChunk_other:
  "storeChunk data f now s = Inr s' \<Longrightarrow> k \<noteq> stagingName (uploadId data) \<Longrightarrow>
     map_of s' k = map_of s k"
  by (auto simp: storeChunk_def Let_def simp del: writeFile.simps dest: writeFile_other
           split: if_splits)

lemma createWriteStream_other:
  "createWriteStream now [u] s = Inr s' \<Longrightarrow> k \<noteq> u \<Longrightarrow> map_of s' k = map_of s k"
  by (auto simp: update_conv' split: option.splits node.splits)

lemma streamWrite_other:
  "streamWrite now [u] c s = Inr s' \<Longrightarrow> k \<noteq> u \<Longrightarrow> map_of s' k = map_of s k"
  by (auto simp: update_conv' split: option.splits node.splits if_splits)

lemma copyChunks_other:
  "k \<noteq> d \<Longrightarrow> k \<noteq> u \<Longrightarrow> map_of (snd (copyChunks now d [u] fs s)) k = map_of s k"
proof (induction fs arbitrary: s)
  case Nil
  then show ?case by simp
next
  case (Cons f fs)
  show ?case
  proof (cases "stat s [d, f]")
    case None
    then show ?thesis by simp
  next
    case (Some x)
    show ?thesis
    proof (cases x)
      case (Dir t sub)
      with Some show ?thesis by simp
    next
      case (File t c)
      show ?thesis
      proof (cases "streamWrite now [u] c s")
        case (Inl e)
        with Some File show ?thesis by simp
      next
        case (Inr s')
        then have "map_of s' k = map_of s k" using Cons.prems(2) by (rule streamWrite_other)
        moreover have "map_of (remove now [d, f] s') k = map_of s' k"
          using Cons.prems(1) by (rule remove_other)
        moreover have "map_of (snd (copyChunks now d [u] fs (remove now [d, f] s'))) k =
            map_of (remove now [d, f] s') k"
          using Cons.prems by (rule Cons.IH)
        ultimately show ?thesis using Some File Inr by simp
      qed
    qed
  qed
qed

lemma completeUpload_other:
  assumes "k \<noteq> stagingName (uploadId data)" and "k \<noteq> uploadId data"
  shows "map_of (snd (completeUpload ord opts data now s)) k = map_of s k"
proof -
  let ?d = "stagingName (uploadId data)" and ?u = "uploadId data"
  have cp: "map_of (snd (copyChunks now ?d [?u] fs s1)) k = map_of s k"
    if "createWriteStream now [?u] s = Inr s1" for fs s1
    using copyChunks_other[OF assms, of now fs s1] createWriteStream_other[OF that assms(2)]
    by simp
  have rm: "map_of (remove now [?d] s2) k = map_of s2 k" for s2
    using assms(1) by (rule remove_other)
  show ?thesis
    unfolding completeUpload_def Let_def
    using assms(1) cp rm
    by (auto simp: sendError_other split: sum.splits option.splits prod.splits)
       (metis snd_conv)+
qed

lemma admission_invalid:
  assumes "reqMethod req = ''POST''" "validateFrom req" "astroBigFileUpload req = Some ''true''"
    and "deleteOldUploads ord now (maxUploadTime opts) s0 = (None, s1)"
    and "zodValidationInfo (reqInfo req) = None \<or> reqFile req = None"
  shows "admission ord opts req now s0 =
           Inl (Returned (Json False (Some ''Invalid request'') None) None, s1)"
  using assms by (auto simp: admission_def split: option.splits)

lemma loadUploadFiles_other:
  assumes gate: "reqMethod req = ''POST''" "validateFrom req" "astroBigFileUpload req = Some ''true''"
    and reap: "deleteOldUploads ord now (maxUploadTime opts) s0 = (None, s1)"
    and info: "reqInfo req = Some d"
    and k: "k \<noteq> uploadId d" "k \<noteq> stagingName (uploadId d)"
  shows "map_of (snd (loadUploadFiles ord opts req now s0)) k = map_of s1 k"
proof (cases "zodValidationInfo (reqInfo req) = None \<or> reqFile req = None")
  case True
  from admission_invalid[OF gate reap True] show ?thesis by (simp add: loadUploadFiles_def)
next
  case False
  then obtain f where f: "reqFile req = Some f" by auto
  from False info have zod: "zodValidationInfo (reqInfo req) = Some d"
    by (auto simp: zodValidationInfo_def split: if_splits)
  let ?d = "stagingName (uploadId d)"
  show ?thesis
  proof (cases "ensureDir now [?d] s1")
    case (Inl e)
    with gate reap zod f show ?thesis by (simp add: loadUploadFiles_def admission_def)
  next
    case (Inr s2)
    have s2: "map_of s2 k = map_of s1 k" using Inr k(2) by (rule ensureDir_other)
    note adm = admission_gated[OF gate reap zod f Inr]
    show ?thesis
    proof (cases "quotaGuard opts d f now s2")
      case (Some r)
      with adm have "loadUploadFiles ord opts req now s0 = r" by (simp add: loadUploadFiles_def)
      with quotaGuard_other[OF Some k(2)] s2 show ?thesis by simp
    next
      case None
      show ?thesis
      proof (cases "checkIfFileExists s2 [uploadId d]")
        case True
        with adm None have "loadUploadFiles ord opts req now s0 =
            sendError now ?d ''Upload already exists'' s2" by (simp add: loadUploadFiles_def)
        with sendError_other[OF k(2), of now "''Upload already exists''" s2] s2 show ?thesis by simp
      next
        case False
        with adm None have run: "loadUploadFiles ord opts req now s0 =
          (case storeChunk d f now s2 of
             Inl e \<Rightarrow> (Raised e, s2)
           | Inr s' \<Rightarrow>
               if part d \<noteq> total' d then (Returned (Json True None None) None, s')
               else completeUpload ord opts d now s')"
          by (simp add: loadUploadFiles_def)
        show ?thesis
        proof (cases "storeChunk d f now s2")
          case (Inl e)
          with run s2 show ?thesis by simp
        next
          case (Inr s')
          then have s': "map_of s' k = map_of s2 k" using k(2) by (rule storeChunk_other)
          have "map_of (snd (completeUpload ord opts d now s')) k = map_of s' k"
            using k(2,1) by (rule completeUpload_other)
          with run Inr s' s2 show ?thesis by simp
        qed
      qed
    qed
  qed
qed

subsection \<open>The reaper\<close>

text \<open>
  Claim C9. A submission that passes the gating checks (method \<open>POST\<close>, a valid form
  token, the marker field) runs the reaper before it looks at the metadata, whatever
  identifier it carries and in whatever order the staging root is listed: of the entries
  directly under the staging root, exactly those with \<open>now - mtime > maxUploadTime\<close> are
  deleted, whole directories included, and every other entry stays as it is. The
  submission goes on with the storage so reaped: a malformed submission returns it; a
  well-formed one ensures its staging directory in it and makes its checks on the result;
  and whatever the submission then does, every entry directly under the staging root other
  than its own staging directory and final artifact is, in the storage it leaves, what it
  is in the reaped storage. The names of a directory are distinct.
\<close>

theorem reaping_removes_exactly_the_stale_entries:
  assumes gate: "reqMethod req = ''POST''" "validateFrom req"
      "astroBigFileUpload req = Some ''true''"
    and dist: "distinct (map fst s0)"
  shows "deleteOldUploads ord now (maxUploadTime opts) s0 =
           (None, filter (\<lambda>(n, x). \<not> now - mtime x > maxUploadTime opts) s0)
       \<and> (zodValidationInfo (reqInfo req) = None \<or> reqFile req = None \<longrightarrow>
            loadUploadFiles ord opts req now s0 =
              (Returned (Json False (Some ''Invalid request'') None) None,
               filter (\<lambda>(n, x). \<not> now - mtime x > maxUploadTime opts) s0))
       \<and> (\<forall>data f s2.
            zodValidationInfo (reqInfo req) = Some data \<and> reqFile req = Some f \<and>
            ensureDir now [stagingName (uploadId data)]
              (filter (\<lambda>(n, x). \<not> now - mtime x > maxUploadTime opts) s0) = Inr s2 \<longrightarrow>
            admission ord opts req now s0 =
              (case quotaGuard opts data f now s2 of
                 Some r \<Rightarrow> Inl r
               | None \<Rightarrow>
                   if checkIfFileExists s2 [uploadId data]
                   then Inl (sendError now (stagingName (uploadId data))
                               ''Upload already exists'' s2)
                   else Inr (data, f, s2)))
       \<and> (\<forall>d k. reqInfo req = Some d \<and> k \<noteq> uploadId d \<and> k \<noteq> stagingName (uploadId d) \<longrightarrow>
            map_of (snd (loadUploadFiles ord opts req now s0)) k =
            map_of (filter (\<lambda>(n, x). \<not> now - mtime x > maxUploadTime opts) s0) k)"
proof -
  let ?F = "filter (\<lambda>(n, x). \<not> now - mtime x > maxUploadTime opts) s0"
  have reap: "deleteOldUploads ord now (maxUploadTime opts) s0 = (None, ?F)"
    using dist by (rule deleteOldUploads_filter)
  have invalid: "loadUploadFiles ord opts req now s0 =
      (Returned (Json False (Some ''Invalid request'') None) None, ?F)"
    if "zodValidationInfo (reqInfo req) = None \<or> reqFile req = None"
    using admission_invalid[OF gate reap that] by (simp add: loadUploadFiles_def)
  have continues: "admission ord opts req now s0 =
      (case quotaGuard opts data f now s2 of
         Some r \<Rightarrow> Inl r
       | None \<Rightarrow>
           if checkIfFileExists s2 [uploadId data]
           then Inl (sendError now (stagingName (uploadId data)) ''Upload already exists'' s2)
           else Inr (data, f, s2))"
    if "zodValidationInfo (reqInfo req) = Some data" "reqFile req = Some f"
       "ensureDir now [stagingName (uploadId data)] ?F = Inr s2" for data f s2
    using gate reap that by (rule admission_gated)
  have frame: "map_of (snd (loadUploadFiles ord opts req now s0)) k = map_of ?F k"
    if "reqInfo req = Some d" "k \<noteq> uploadId d" "k \<noteq> stagingName (uploadId d)" for d k
    using gate reap that by (rule loadUploadFiles_other)
  from reap invalid continues frame show ?thesis by blast
qed

text \<open>
  At time 6000000 with the default age of 5400000: the directory last modified at 100 goes,
  the file at 600000 (age exactly 5400000) and the file at 5999999 stay, also in the
  storage that a submission for another identifier leaves.
\<close>

theorem reaping_removes_exactly_the_stale_entries_witness:
  "deleteOldUploads byName 6000000 (maxUploadTime exampleOptions)
     [(''old'', Dir 100 [(''1-2'', File 100 ''a'')]), (''edge'', File 600000 ''b''),
      (''new'', File 5999999 ''c'')]
   = (None, [(''edge'', File 600000 ''b''), (''new'', File 5999999 ''c'')]) \<and>
   map_of (snd (loadUploadFiles byName exampleOptions (exampleRequest 1 3 ''aaa'') 6000000
     [(''old'', Dir 100 [(''1-2'', File 100 ''a'')]), (''edge'', File 600000 ''b''),
      (''new'', File 5999999 ''c'')])) ''old'' = None \<and>
   map_of (snd (loadUploadFiles byName exampleOptions (exampleRequest 1 3 ''aaa'') 6000000
     [(''old'', Dir 100 [(''1-2'', File 100 ''a'')]), (''edge'', File 600000 ''b''),
      (''new'', File 5999999 ''c'')])) ''edge'' = Some (File 600000 ''b'')"
proof -
  let ?s0 = "[(''old'', Dir 100 [(''1-2'', File 100 ''a'')]), (''edge'', File 600000 ''b''),
      (''new'', File 5999999 ''c'')]"
  have gate: "reqMethod (exampleRequest 1 3 ''aaa'') = ''POST''"
    "validateFrom (exampleRequest 1 3 ''aaa'')"
    "astroBigFileUpload (exampleRequest 1 3 ''aaa'') = Some ''true''"
    by (simp_all add: exampleRequest_def)
  have dist: "distinct (map fst ?s0)" by simp
  have info: "reqInfo (exampleRequest 1 3 ''aaa'') = Some (exampleInfo 1 3)"
    by (simp add: exampleRequest_def)
  have names: "''old'' \<noteq> uploadId (exampleInfo 1 3)"
    "''old'' \<noteq> stagingName (uploadId (exampleInfo 1 3))"
    "''edge'' \<noteq> uploadId (exampleInfo 1 3)"
    "''edge'' \<noteq> stagingName (uploadId (exampleInfo 1 3))"
    by (simp_all add: exampleInfo_def exampleId_def stagingName_def)
  from reaping_removes_exactly_the_stale_entries[OF gate dist, of byName 6000000 exampleOptions]
  show ?thesis using info names
    by (simp add: exampleOptions_def)
qed

subsection \<open>The existence test\<close>

lemma sendError_message:
  "fst (sendError now d msg s) = Returned (Json False (Some msg') None) h \<Longrightarrow> msg' = msg"
  by (simp add: sendError_def split: sum.splits)

lemma quotaGuard_message:
  "quotaGuard opts data f now s = Some r \<Longrightarrow>
     fst r \<noteq> Returned (Json False (Some ''Upload already exists'') None) h"
  by (auto simp: quotaGuard_def Let_def split: if_splits dest!: sendError_message)

lemma completeUpload_message:
  "fst (completeUpload ord opts data now s) \<noteq> Returned (Json False (Some ''Upload already exists'') None) h"
  by (auto simp: completeUpload_def Let_def split: sum.splits option.splits prod.splits
           dest!: sendError_message)

lemma deleteOldUploadsLoop_no_file:
  "deleteOldUploadsLoop now maxT fs s = (r, s') \<Longrightarrow> \<not> checkIfFileExists s [k] \<Longrightarrow>
     \<not> checkIfFileExists s' [k]"
proof (induction fs arbitrary: s)
  case Nil
  then show ?case by simp
next
  case (Cons f fs)
  show ?case
  proof (cases "map_of s f")
    case None
    with Cons.prems show ?thesis by simp
  next
    case (Some st)
    let ?s = "if now - mtime st > maxT then remove now [f] s else s"
    from Cons.prems(1) Some have "deleteOldUploadsLoop now maxT fs ?s = (r, s')" by simp
    moreover have "\<not> checkIfFileExists ?s [k]"
      using Cons.prems(2) by (simp add: checkIfFileExists_def delete_conv' split: option.splits)
    ultimately show ?thesis by (rule Cons.IH)
  qed
qed

lemma no_duplicate_rejection:
  assumes nf: "\<not> checkIfFileExists s0 [uploadId d]" and info: "reqInfo req = Some d"
  shows "fst (loadUploadFiles ord opts req now s0) \<noteq>
           Returned (Json False (Some ''Upload already exists'') None) h"
proof (cases "admission ord opts req now s0")
  case (Inr a)
  then show ?thesis
    by (auto simp: loadUploadFiles_def completeUpload_message split: prod.splits sum.splits)
next
  case (Inl r)
  show ?thesis
  proof (cases "reqMethod req = ''POST'' \<and> validateFrom req \<and> astroBigFileUpload req = Some ''true''")
    case False
    with Inl show ?thesis by (auto simp: loadUploadFiles_def admission_def split: if_splits)
  next
    case gate: True
    obtain e s1 where reap: "deleteOldUploads ord now (maxUploadTime opts) s0 = (e, s1)"
      by (cases "deleteOldUploads ord now (maxUploadTime opts) s0")
    then have nf1: "\<not> checkIfFileExists s1 [uploadId d]"
      using nf by (auto simp: deleteOldUploads_def dest: deleteOldUploadsLoop_no_file)
    show ?thesis
    proof (cases "e = None \<and> zodValidationInfo (reqInfo req) = Some d \<and> reqFile req \<noteq> None")
      case False
      with Inl gate reap info show ?thesis
        by (auto simp: loadUploadFiles_def admission_def zodValidationInfo_def
            split: if_splits option.splits)
    next
      case True
      then obtain f where f: "reqFile req = Some f" by auto
      show ?thesis
      proof (cases "ensureDir now [stagingName (uploadId d)] s1")
        case (Inl x)
        with gate reap True f show ?thesis
          by (simp add: loadUploadFiles_def admission_def)
      next
        case (Inr s2)
        then have "map_of s2 (uploadId d) = map_of s1 (uploadId d)"
          by (rule ensureDir_other) simp
        with nf1 have nf2: "\<not> checkIfFileExists s2 [uploadId d]"
          by (simp add: checkIfFileExists_def)
        have adm: "admission ord opts req now s0 =
           (case quotaGuard opts d f now s2 of Some r \<Rightarrow> Inl r | None \<Rightarrow> Inr (d, f, s2))"
          using gate reap True f Inr nf2 by (simp add: admission_gated)
        show ?thesis
        proof (cases "quotaGuard opts d f now s2")
          case None
          with adm Inl show ?thesis by simp
        next
          case (Some q)
          with adm have "loadUploadFiles ord opts req now s0 = q" by (simp add: loadUploadFiles_def)
          with Some show ?thesis by (simp add: quotaGuard_message)
        qed
      qed
    qed
  qed
qed

text \<open>
  Claim C10. \<open>checkIfFileExists\<close> returns a truth value for every path and never raises:
  it is true exactly when \<open>stat\<close> finds a regular file, so it is false both when
  \<open>stat\<close> rejects and when the path is a directory. In consequence a submission for an
  identifier at whose final-artifact path a directory lies is never answered with
  \<open>Upload already exists\<close>.
\<close>

theorem checkIfFileExists_only_for_regular_files:
  "(checkIfFileExists s p \<longleftrightarrow> (\<exists>t c. stat s p = Some (File t c))) \<and>
   (reqInfo req = Some d \<and> stat s0 [uploadId d] = Some (Dir t' sub) \<longrightarrow>
      fst (loadUploadFiles ord opts req now s0) \<noteq>
        Returned (Json False (Some ''Upload already exists'') None) None)"
proof -
  have "checkIfFileExists s p \<longleftrightarrow> (\<exists>t c. stat s p = Some (File t c))"
    by (auto simp: checkIfFileExists_def isFile_def split: option.splits node.splits)
  moreover have "fst (loadUploadFiles ord opts req now s0) \<noteq>
        Returned (Json False (Some ''Upload already exists'') None) None"
    if "reqInfo req = Some d" and "stat s0 [uploadId d] = Some (Dir t' sub)"
  proof -
    from that(2) have "\<not> checkIfFileExists s0 [uploadId d]"
      by (simp add: checkIfFileExists_def isFile_def)
    then show ?thesis using that(1) by (rule no_duplicate_rejection)
  qed
  ultimately show ?thesis by blast
qed

text \<open>A directory lies at the path of the final artifact; part 1 of 3 is submitted.\<close>

theorem checkIfFileExists_only_for_regular_files_witness:
  "stat [(exampleId, Dir 5 [])] [exampleId] = Some (Dir 5 []) \<and>
   \<not> checkIfFileExists [(exampleId, Dir 5 [])] [exampleId] \<and>
   fst (loadUploadFiles byName exampleOptions (exampleRequest 1 3 ''aaa'') 10 [(exampleId, Dir 5 [])])
     \<noteq> Returned (Json False (Some ''Upload already exists'') None) None"
  using checkIfFileExists_only_for_regular_files[of
      "[(exampleId, Dir 5 [])]" "[exampleId]" "exampleRequest 1 3 ''aaa''" "exampleInfo 1 3"
      "[(exampleId, Dir 5 [])]" 5 "[]" byName exampleOptions 10]
  by (simp add: exampleRequest_def exampleInfo_def)

subsection \<open>The chunk store\<close>

lemma ensureDir_existing:
  "map_of s d = Some (Dir t es) \<Longrightarrow> ensureDir now [d] s = Inr s"
  by (simp add: restamp_def update_triv)

lemma example_names:
  "stagingName exampleId = ''chunks_123e4567-e89b-12d3-a456-426614174000''"
  "chunkName 1 3 = ''1-3''" "chunkName 2 3 = ''2-3''" "chunkName 3 3 = ''3-3''"
  "chunkName 1 2 = ''1-2''" "chunkName 2 2 = ''2-2''"
  by code_simp+

text \<open>
  Claim C7. A chunk whose name \<open>part-total\<close> is already a regular file in the staging
  directory of the upload is not written again: the store step returns the storage it was
  given. For a submission that is not the last part, with the staging directory of the
  upload not stale, the whole submission answers \<open>ok\<close> and changes the storage only by
  reaping; the stored chunk keeps its content and time.
\<close>

theorem stored_chunk_is_not_rewritten:
  "(checkIfFileExists s [stagingName (uploadId data), chunkName (part data) (total' data)] \<longrightarrow>
      storeChunk data uploadFile now s = Inr s) \<and>
   (admission ord opts req now s0 = Inr (data, uploadFile, s) \<and>
    part data \<noteq> total' data \<and>
    distinct (map fst s0) \<and>
    map_of s0 (stagingName (uploadId data)) = Some (Dir t es) \<and> \<not> now - t > maxUploadTime opts \<and>
    map_of es (chunkName (part data) (total' data)) = Some (File tc c) \<longrightarrow>
      loadUploadFiles ord opts req now s0 =
        (Returned (Json True None None) None,
         filter (\<lambda>(n, x). \<not> now - mtime x > maxUploadTime opts) s0) \<and>
      stat (filter (\<lambda>(n, x). \<not> now - mtime x > maxUploadTime opts) s0)
           [stagingName (uploadId data), chunkName (part data) (total' data)] = Some (File tc c))"
proof -
  let ?d = "stagingName (uploadId data)" and ?c = "chunkName (part data) (total' data)"
  let ?F = "filter (\<lambda>(n, x). \<not> now - mtime x > maxUploadTime opts) s0"
  have one: "storeChunk data uploadFile now s = Inr s" if "checkIfFileExists s [?d, ?c]" for s
    using that by (simp add: storeChunk_def)
  have two: "loadUploadFiles ord opts req now s0 = (Returned (Json True None None) None, ?F) \<and>
      stat ?F [?d, ?c] = Some (File tc c)"
    if adm: "admission ord opts req now s0 = Inr (data, uploadFile, s)"
      and np: "part data \<noteq> total' data"
      and dist: "distinct (map fst s0)"
      and dir: "map_of s0 ?d = Some (Dir t es)" and fresh: "\<not> now - t > maxUploadTime opts"
      and chunk: "map_of es ?c = Some (File tc c)"
  proof -
    from admission_InrD[OF adm] obtain s1 where
      s1: "deleteOldUploads ord now (maxUploadTime opts) s0 = (None, s1)"
      and s: "ensureDir now [?d] s1 = Inr s" by blast
    from s1 dist have "s1 = ?F" by (simp add: deleteOldUploads_filter)
    have dirF: "map_of ?F ?d = Some (Dir t es)"
      using dir fresh by (intro map_of_filter_in) auto
    then have "ensureDir now [?d] ?F = Inr ?F" by (rule ensureDir_existing)
    with s \<open>s1 = ?F\<close> have "s = ?F" by simp
    have st: "stat ?F [?d, ?c] = Some (File tc c)" using dirF chunk by simp
    then have "checkIfFileExists ?F [?d, ?c]" by (simp add: checkIfFileExists_def isFile_def)
    then have "storeChunk data uploadFile now ?F = Inr ?F" by (rule one)
    with adm np \<open>s = ?F\<close> st show ?thesis by (simp add: loadUploadFiles_def)
  qed
  from one two show ?thesis by blast
qed

text \<open>Part 1 of 3 is sent again with another payload; the stored \<open>aaa\<close> stays.\<close>

theorem stored_chunk_is_not_rewritten_witness:
  "checkIfFileExists [(stagingName exampleId, Dir 5 [(''1-3'', File 5 ''aaa'')])]
      [stagingName exampleId, ''1-3''] \<and>
   storeChunk (exampleInfo 1 3) ''zzz'' 10
      [(stagingName exampleId, Dir 5 [(''1-3'', File 5 ''aaa'')])]
     = Inr [(stagingName exampleId, Dir 5 [(''1-3'', File 5 ''aaa'')])] \<and>
   loadUploadFiles byName exampleOptions (exampleRequest 1 3 ''zzz'') 10
      [(stagingName exampleId, Dir 5 [(''1-3'', File 5 ''aaa'')])]
     = (Returned (Json True None None) None,
        [(stagingName exampleId, Dir 5 [(''1-3'', File 5 ''aaa'')])])"
proof -
  let ?s = "[(stagingName exampleId, Dir 5 [(''1-3'', File 5 ''aaa'')])]"
  have ex: "checkIfFileExists ?s [stagingName exampleId, ''1-3'']"
    by (simp add: checkIfFileExists_def isFile_def)
  have adm: "admission byName exampleOptions (exampleRequest 1 3 ''zzz'') 10 ?s =
      Inr (exampleInfo 1 3, ''zzz'', ?s)"
    by code_simp
  from stored_chunk_is_not_rewritten[of ?s "exampleInfo 1 3" "''zzz''" 10 byName exampleOptions
      "exampleRequest 1 3 ''zzz''" ?s 5 "[(''1-3'', File 5 ''aaa'')]" 5 "''aaa''"]
  show ?thesis using ex adm
    by (simp add: exampleInfo_def exampleOptions_def example_names)
qed

subsection \<open>The completeness check\<close>

text \<open>
  Claim C8. A submission with \<open>part = total\<close> reaches the completeness check with the
  entries \<open>es\<close> in its staging directory. When some index \<open>i\<close> between 1 and \<open>total\<close> has no
  entry named \<open>i-total\<close>, the answer is \<open>Missing chunk m, upload failed\<close> for the
  smallest such index \<open>m\<close>, and the staging directory is kept with all of its entries;
  only the marker \<open>error.txt\<close> is written into it. The module writes only regular files
  into a staging directory, so \<open>error.txt\<close> is taken not to be a directory.
\<close>

theorem missing_chunk_is_reported:
  assumes adm: "admission ord opts req now s0 = Inr (data, uploadFile, s)"
    and fin: "part data = total' data"
    and store: "storeChunk data uploadFile now s = Inr s'"
    and dir: "stat s' [stagingName (uploadId data)] = Some (Dir t es)"
    and miss: "1 \<le> i" "i \<le> total' data" "chunkName i (total' data) \<notin> fst ` set es"
    and marker: "\<forall>t' sub. map_of es ''error.txt'' \<noteq> Some (Dir t' sub)"
  shows "\<exists>m. 1 \<le> m \<and> m \<le> i \<and> chunkName m (total' data) \<notin> fst ` set es \<and>
           (\<forall>j. 1 \<le> j \<and> j < m \<longrightarrow> chunkName j (total' data) \<in> fst ` set es) \<and>
           loadUploadFiles ord opts req now s0 =
             (Returned (Json False (Some (''Missing chunk '' @ showInt m @ '', upload failed'')) None)
                None,
              AList.update (stagingName (uploadId data))
                (restamp now t es
                   (AList.update ''error.txt''
                      (File now (''Missing chunk '' @ showInt m @ '', upload failed'')) es))
                s')"
proof -
  let ?d = "stagingName (uploadId data)"
  from dir have dir': "map_of s' ?d = Some (Dir t es)" by simp
  have "findMissing 1 (total' data) (listing ord (map fst es)) \<noteq> None"
    using miss by (auto simp: findMissing_None)
  then obtain m where m: "findMissing 1 (total' data) (listing ord (map fst es)) = Some m" by auto
  from findMissing_Some[OF m] have props: "1 \<le> m" "m \<le> total' data"
    "chunkName m (total' data) \<notin> fst ` set es"
    "\<forall>j. 1 \<le> j \<and> j < m \<longrightarrow> chunkName j (total' data) \<in> fst ` set es"
    by auto
  have "m \<le> i"
  proof (rule ccontr)
    assume "\<not> m \<le> i"
    with miss(1) props(4) have "chunkName i (total' data) \<in> fst ` set es" by auto
    with miss(3) show False by contradiction
  qed
  have "completeUpload ord opts data now s' =
      sendError now ?d (''Missing chunk '' @ showInt m @ '', upload failed'') s'"
    using dir' m by (simp add: completeUpload_def Let_def)
  also have "\<dots> = (Returned (Json False (Some (''Missing chunk '' @ showInt m @ '', upload failed'')) None) None,
      AList.update ?d (restamp now t es (AList.update ''error.txt''
          (File now (''Missing chunk '' @ showInt m @ '', upload failed'')) es)) s')"
    using dir' marker by (rule sendError_ok)
  finally have "loadUploadFiles ord opts req now s0 =
      (Returned (Json False (Some (''Missing chunk '' @ showInt m @ '', upload failed'')) None) None,
      AList.update ?d (restamp now t es (AList.update ''error.txt''
          (File now (''Missing chunk '' @ showInt m @ '', upload failed'')) es)) s')"
    using adm fin store by (simp add: loadUploadFiles_def)
  with props \<open>m \<le> i\<close> show ?thesis by blast
qed

text \<open>The last of three parts arrives first: part 1 is reported, the chunk is kept.\<close>

theorem missing_chunk_is_reported_witness:
  "loadUploadFiles byName exampleOptions (exampleRequest 3 3 ''ccc'') 10 [] =
     (Returned (Json False (Some ''Missing chunk 1, upload failed'') None) None,
      [(stagingName exampleId,
        Dir 10 [(''3-3'', File 10 ''ccc''),
                (''error.txt'', File 10 ''Missing chunk 1, upload failed'')])])"
proof -
  let ?es = "[(''3-3'', File 10 ''ccc'')]"
  let ?s' = "[(stagingName exampleId, Dir 10 ?es)]"
  have adm: "admission byName exampleOptions (exampleRequest 3 3 ''ccc'') 10 [] =
      Inr (exampleInfo 3 3, ''ccc'', [(stagingName exampleId, Dir 10 [])])"
    by code_simp
  have fin: "part (exampleInfo 3 3) = total' (exampleInfo 3 3)"
    by (simp add: exampleInfo_def)
  have store: "storeChunk (exampleInfo 3 3) ''ccc'' 10 [(stagingName exampleId, Dir 10 [])] = Inr ?s'"
    by code_simp
  have dir: "stat ?s' [stagingName (uploadId (exampleInfo 3 3))] = Some (Dir 10 ?es)"
    by (simp add: exampleInfo_def)
  have miss: "(1::int) \<le> 1" "1 \<le> total' (exampleInfo 3 3)"
    "chunkName 1 (total' (exampleInfo 3 3)) \<notin> fst ` set ?es"
    by (simp_all add: exampleInfo_def example_names)
  have marker: "\<forall>t' sub. map_of ?es ''error.txt'' \<noteq> Some (Dir t' sub)"
    by simp
  from missing_chunk_is_reported[OF adm fin store dir miss marker]
  obtain m where "1 \<le> m" "m \<le> 1" and
    run: "loadUploadFiles byName exampleOptions (exampleRequest 3 3 ''ccc'') 10 [] =
             (Returned (Json False (Some (''Missing chunk '' @ showInt m @ '', upload failed'')) None)
                None,
              AList.update (stagingName (uploadId (exampleInfo 3 3)))
                (restamp 10 10 ?es
                   (AList.update ''error.txt''
                      (File 10 (''Missing chunk '' @ showInt m @ '', upload failed'')) ?es))
                ?s')"
    by blast
  then have "m = 1" by simp
  have "showInt 1 = ''1''" by code_simp
  with run \<open>m = 1\<close> show ?thesis
    by (simp add: exampleInfo_def restamp_def)
qed

subsection \<open>The assembly\<close>

text \<open>
  Claim C5. When the last part passes the completeness check, every entry of the staging
  directory is copied, whether or not its name is one of the chunk names \<open>i-total\<close>,
  in the order in which \<open>fs.readdir\<close> lists the names after the chunk is stored,
  whatever that order is: the final artifact is the concatenation of the contents of all
  entries in that order, the staging directory is removed, the answer is
  \<open>finished\<close>, and the count handed to \<open>onFinished\<close> is the number of entries. The
  entries are regular files with distinct names, and no directory lies at the path of the
  final artifact.
\<close>

theorem assembly_copies_every_entry_of_the_listing:
  assumes adm: "admission ord opts req now s0 = Inr (data, uploadFile, s)"
    and fin: "part data = total' data"
    and store: "storeChunk data uploadFile now s = Inr s'"
    and dir: "stat s' [stagingName (uploadId data)] = Some (Dir t es)"
    and complete: "\<forall>j. 1 \<le> j \<and> j \<le> total' data \<longrightarrow> chunkName j (total' data) \<in> fst ` set es"
    and files: "list_all (\<lambda>(n, x). isFile x) es"
    and dist: "distinct (map fst es)"
    and nodir: "\<forall>t' sub. stat s' [uploadId data] \<noteq> Some (Dir t' sub)"
  shows "loadUploadFiles ord opts req now s0 =
           (Returned (Json True None (Some True))
              (if onFinished opts then Some (uploadId data, length es) else None),
            AList.delete (stagingName (uploadId data))
              (AList.update (uploadId data)
                 (File now (concat (map (fileContent es) (listing ord (map fst es))))) s'))
         \<and> stat (snd (loadUploadFiles ord opts req now s0)) [uploadId data] =
             Some (File now (concat (map (fileContent es) (listing ord (map fst es)))))
         \<and> stat (snd (loadUploadFiles ord opts req now s0)) [stagingName (uploadId data)] = None"
proof -
  let ?d = "stagingName (uploadId data)" and ?u = "uploadId data"
  from dir have dir': "map_of s' ?d = Some (Dir t es)" by simp
  have fm: "findMissing 1 (total' data) (listing ord (map fst es)) = None"
    using complete by (simp add: findMissing_None)
  from admission_InrD[OF adm] have "\<not> checkIfFileExists s [?u]" by blast
  moreover have "map_of s' ?u = map_of s ?u" using store by (rule storeChunk_other) simp
  ultimately have nofinal: "map_of s' ?u = None"
    using nodir by (cases "map_of s ?u") (auto simp: checkIfFileExists_def isFile_def split: node.splits)
  have run: "loadUploadFiles ord opts req now s0 = completeUpload ord opts data now s'"
    using adm fin store by (simp add: loadUploadFiles_def)
  note asm = completeUpload_assembles[OF dir' fm nofinal dist files, of opts now]
  show ?thesis
    unfolding run asm by (simp add: update_conv' delete_conv')
qed

text \<open>
  With the marker of an earlier rejection in the staging directory of an upload of two
  parts, listed by name: its text is part of the artifact, after the two chunks, and the
  count is 3.
\<close>

theorem assembly_copies_every_entry_of_the_listing_witness:
  "loadUploadFiles byName exampleOptions (exampleRequest 2 2 ''bb'') 10
     [(stagingName exampleId,
       Dir 5 [(''error.txt'', File 5 ''Missing chunk 1, upload failed''),
              (''1-2'', File 5 ''aa'')])] =
     (Returned (Json True None (Some True)) (Some (exampleId, 3)),
      [(exampleId, File 10 ''aabbMissing chunk 1, upload failed'')])
   \<and> (3::int) > total' (exampleInfo 2 2)"
proof -
  let ?s = "[(stagingName exampleId,
       Dir 5 [(''error.txt'', File 5 ''Missing chunk 1, upload failed''),
              (''1-2'', File 5 ''aa'')])]"
  let ?es = "[(''error.txt'', File 5 ''Missing chunk 1, upload failed''),
              (''1-2'', File 5 ''aa''), (''2-2'', File 10 ''bb'')]"
  let ?s' = "[(stagingName exampleId, Dir 10 ?es)]"
  have adm: "admission byName exampleOptions (exampleRequest 2 2 ''bb'') 10 ?s =
      Inr (exampleInfo 2 2, ''bb'', ?s)"
    by code_simp
  have fin: "part (exampleInfo 2 2) = total' (exampleInfo 2 2)"
    by (simp add: exampleInfo_def)
  have store: "storeChunk (exampleInfo 2 2) ''bb'' 10 ?s = Inr ?s'"
    by code_simp
  have dir: "stat ?s' [stagingName (uploadId (exampleInfo 2 2))] = Some (Dir 10 ?es)"
    by (simp add: exampleInfo_def)
  have complete: "\<forall>j. 1 \<le> j \<and> j \<le> total' (exampleInfo 2 2) \<longrightarrow>
      chunkName j (total' (exampleInfo 2 2)) \<in> fst ` set ?es"
  proof (intro allI impI)
    fix j :: int assume "1 \<le> j \<and> j \<le> total' (exampleInfo 2 2)"
    then have "j = 1 \<or> j = 2" by (auto simp: exampleInfo_def)
    then show "chunkName j (total' (exampleInfo 2 2)) \<in> fst ` set ?es"
      by (auto simp: exampleInfo_def example_names)
  qed
  have files: "list_all (\<lambda>(n, x). isFile x) ?es" by (simp add: isFile_def)
  have dist: "distinct (map fst ?es)" by simp
  have nodir: "\<forall>t' sub. stat ?s' [uploadId (exampleInfo 2 2)] \<noteq> Some (Dir t' sub)"
    by (simp add: exampleInfo_def example_names exampleId_def)
  have ne: "stagingName exampleId \<noteq> exampleId" by simp
  have ls: "listing byName (map fst ?es) = [''1-2'', ''2-2'', ''error.txt'']" by code_simp
  from assembly_copies_every_entry_of_the_listing[OF adm fin store dir complete files dist nodir]
  show ?thesis using ne unfolding ls
    by (simp add: exampleInfo_def exampleOptions_def fileContent_def)
qed

text \<open>
  Claim C1. The claim asks for the concatenation in ascending part order whatever the
  order of the listing. The copy loop takes the names in the order of the listing and does
  not sort them. Where the listing is in the order of creation, with part 2 stored before
  part 1 and part 3 arriving last, the artifact is part 2, part 1, part 3. Where the
  listing is by name, \<open>10-10\<close> comes before \<open>2-10\<close>: of ten parts, the tenth is
  copied second, both when it was stored before and when it arrives last.
\<close>

theorem listing_order_decides_the_artifact:
  "loadUploadFiles byCreation exampleOptions (exampleRequest 3 3 ''ccc'') 30
     [(stagingName exampleId, Dir 20 [(''2-3'', File 10 ''bbb''), (''1-3'', File 20 ''aaa'')])]
   = (Returned (Json True None (Some True)) (Some (exampleId, 3)),
      [(exampleId, File 30 ''bbbaaaccc'')]) \<and>
   loadUploadFiles byName exampleOptions (exampleRequest 10 10 ''j'') 30
     [(stagingName exampleId,
       Dir 20 [(''1-10'', File 10 ''a''), (''10-10'', File 10 ''j''), (''2-10'', File 10 ''b''),
               (''3-10'', File 10 ''c''), (''4-10'', File 10 ''d''), (''5-10'', File 10 ''e''),
               (''6-10'', File 10 ''f''), (''7-10'', File 10 ''g''), (''8-10'', File 10 ''h''),
               (''9-10'', File 10 ''i'')])]
   = (Returned (Json True None (Some True)) (Some (exampleId, 10)),
      [(exampleId, File 30 ''ajbcdefghi'')]) \<and>
   loadUploadFiles byName exampleOptions (exampleRequest 10 10 ''j'') 30
     [(stagingName exampleId,
       Dir 20 [(''1-10'', File 10 ''a''), (''2-10'', File 10 ''b''), (''3-10'', File 10 ''c''),
               (''4-10'', File 10 ''d''), (''5-10'', File 10 ''e''), (''6-10'', File 10 ''f''),
               (''7-10'', File 10 ''g''), (''8-10'', File 10 ''h''), (''9-10'', File 10 ''i'')])]
   = (Returned (Json True None (Some True)) (Some (exampleId, 10)),
      [(exampleId, File 30 ''ajbcdefghi'')])"
  by code_simp

subsection \<open>The quota guard\<close>

text \<open>
  Claim C6. The four checks are made in the order of the claim, and the first three end the
  submission through \<open>sendError\<close> with their message, the staging directory in place.
  The fourth removes the staging directory and then calls \<open>sendError\<close>, which writes its
  marker into the directory just removed: the write rejects with \<open>ENOENT\<close> and the
  submission raises instead of answering \<open>Upload size exceeded\<close>.
\<close>

theorem quotaGuard_outcomes:
  "quotaGuard opts data uploadFile now s =
     (if (case allowUpload opts of None \<Rightarrow> False | Some allow \<Rightarrow> \<not> allow uploadFile data)
      then Some (sendError now (stagingName (uploadId data)) ''File not allowed'' s)
      else if uploadSize data > maxUploadSize opts
      then Some (sendError now (stagingName (uploadId data)) ''File size exceeded'' s)
      else if totalDirectorySize s + max (uploadSize data) (int (length uploadFile))
                > maxDirectorySize opts
      then Some (sendError now (stagingName (uploadId data)) ''Directory size exceeded'' s)
      else if totalDirectorySize s + uploadSize data > maxUploadSize opts
      then Some (Raised ENOENT, remove now [stagingName (uploadId data)] s)
      else None)"
proof -
  have "map_of (remove now [stagingName (uploadId data)] s) (stagingName (uploadId data)) = None"
    by (simp add: delete_conv')
  then have "sendError now (stagingName (uploadId data)) ''Upload size exceeded''
       (remove now [stagingName (uploadId data)] s)
     = (Raised ENOENT, remove now [stagingName (uploadId data)] s)"
    by (rule sendError_no_dir)
  then show ?thesis by (simp add: quotaGuard_def Let_def)
qed

text \<open>One chunk of 3 bytes is staged, 9 bytes are declared and the maximum is 10.\<close>

theorem quotaGuard_outcomes_witness:
  "quotaGuard (exampleOptions \<lparr> maxUploadSize := 10 \<rparr>) (exampleInfo 2 3) ''bbb'' 10
     [(stagingName exampleId, Dir 5 [(''1-3'', File 5 ''aaa'')])]
   = Some (Raised ENOENT, [])"
  using quotaGuard_outcomes[of "exampleOptions \<lparr> maxUploadSize := 10 \<rparr>" "exampleInfo 2 3" "''bbb''" 10
       "[(stagingName exampleId, Dir 5 [(''1-3'', File 5 ''aaa'')])]"]
  by (simp add: exampleOptions_def exampleInfo_def)

text \<open>
  Claim C2. On the fourth check the staging directory is deleted, and the caller gets the
  exception of the marker's write, not the response \<open>Upload size exceeded\<close>.
\<close>

theorem fourth_check_raises_instead_of_answering:
  "loadUploadFiles byName (exampleOptions \<lparr> maxUploadSize := 10 \<rparr>) (exampleRequest 2 3 ''bbb'') 10
     [(stagingName exampleId, Dir 5 [(''1-3'', File 5 ''aaa'')])]
   = (Raised ENOENT, [])"
  by code_simp

subsection \<open>The duplicate guard\<close>

lemma duplicate_submission:
  assumes gate: "reqMethod req = ''POST''" "validateFrom req" "astroBigFileUpload req = Some ''true''"
    and info: "zodValidationInfo (reqInfo req) = Some data" and payload: "reqFile req = Some f"
    and dist: "distinct (map fst s0)"
    and artifact: "map_of s0 (uploadId data) = Some (File ta ca)"
    and fresh: "\<not> now - ta > maxUploadTime opts"
    and ensure: "ensureDir now [stagingName (uploadId data)]
                   (filter (\<lambda>(n, x). \<not> now - mtime x > maxUploadTime opts) s0) = Inr s2"
  shows "map_of s2 (uploadId data) = Some (File ta ca)"
    and "admission ord opts req now s0 =
          (case quotaGuard opts data f now s2 of
             Some r \<Rightarrow> Inl r
           | None \<Rightarrow> Inl (sendError now (stagingName (uploadId data)) ''Upload already exists'' s2))"
proof -
  let ?F = "filter (\<lambda>(n, x). \<not> now - mtime x > maxUploadTime opts) s0"
  have reap: "deleteOldUploads ord now (maxUploadTime opts) s0 = (None, ?F)"
    using dist by (rule deleteOldUploads_filter)
  have "map_of ?F (uploadId data) = Some (File ta ca)"
    using artifact fresh by (intro map_of_filter_in) auto
  moreover have "map_of s2 (uploadId data) = map_of ?F (uploadId data)"
    using ensure by (rule ensureDir_other) simp
  ultimately show a2: "map_of s2 (uploadId data) = Some (File ta ca)" by simp
  then have "checkIfFileExists s2 [uploadId data]"
    by (simp add: checkIfFileExists_def isFile_def)
  then show "admission ord opts req now s0 =
          (case quotaGuard opts data f now s2 of
             Some r \<Rightarrow> Inl r
           | None \<Rightarrow> Inl (sendError now (stagingName (uploadId data)) ''Upload already exists'' s2))"
    using admission_gated[OF gate reap info payload ensure]
    by (simp split: option.splits)
qed

lemma example_duplicate:
  "reqMethod (exampleRequest 1 3 ''ccc'') = ''POST''"
  "validateFrom (exampleRequest 1 3 ''ccc'')"
  "astroBigFileUpload (exampleRequest 1 3 ''ccc'') = Some ''true''"
  "zodValidationInfo (reqInfo (exampleRequest 1 3 ''ccc'')) = Some (exampleInfo 1 3)"
  "reqFile (exampleRequest 1 3 ''ccc'') = Some ''ccc''"
  "distinct (map fst [(exampleId, File 5 ''xx'')])"
  "map_of [(exampleId, File 5 ''xx'')] (uploadId (exampleInfo 1 3)) = Some (File 5 ''xx'')"
  "\<not> 10 - 5 > maxUploadTime exampleOptions"
  "ensureDir 10 [stagingName (uploadId (exampleInfo 1 3))]
     (filter (\<lambda>(n, x). \<not> 10 - mtime x > maxUploadTime exampleOptions) [(exampleId, File 5 ''xx'')])
   = Inr [(exampleId, File 5 ''xx''), (stagingName exampleId, Dir 10 [])]"
  "stat [(exampleId, File 5 ''xx''), (stagingName exampleId, Dir 10 [])]
     [stagingName (uploadId (exampleInfo 1 3))] = Some (Dir 10 [])"
  "\<forall>t' sub. map_of ([] :: entries) ''error.txt'' \<noteq> Some (Dir t' sub)"
  "quotaGuard exampleOptions (exampleInfo 1 3) ''ccc'' 10
     [(exampleId, File 5 ''xx''), (stagingName exampleId, Dir 10 [])] = None"
  by (code_simp, code_simp, code_simp, code_simp, code_simp, simp,
      simp add: exampleInfo_def, simp add: exampleOptions_def, code_simp,
      simp add: exampleInfo_def, simp, code_simp)

text \<open>
  Claim C3, as the claim states it, fails: with the final artifact in place, a declared
  size above the maximum is answered with \<open>File size exceeded\<close>, and the fourth check
  deletes the staging directory.
\<close>

theorem duplicate_check_before_quota_counterexample:
  "checkIfFileExists [(exampleId, File 5 ''xx'')] [exampleId] \<and>
   loadUploadFiles byName (exampleOptions \<lparr> maxUploadSize := 5 \<rparr>) (exampleRequest 1 3 ''ccc'') 10
     [(exampleId, File 5 ''xx'')]
   = (Returned (Json False (Some ''File size exceeded'') None) None,
      [(exampleId, File 5 ''xx''),
       (stagingName exampleId, Dir 10 [(''error.txt'', File 10 ''File size exceeded'')])]) \<and>
   loadUploadFiles byName (exampleOptions \<lparr> maxUploadSize := 10 \<rparr>) (exampleRequest 2 3 ''bbb'') 10
     [(exampleId, File 5 ''xx''), (stagingName exampleId, Dir 5 [(''1-3'', File 5 ''aaa'')])]
   = (Raised ENOENT, [(exampleId, File 5 ''xx'')])"
  by code_simp

text \<open>
  Claim C3, amended. The test for the final artifact comes after the quota guard. For a
  well-formed submission whose final artifact is a regular file that the reaper leaves in
  place, an outcome of the quota guard is the outcome of the submission; when the quota
  guard passes, the answer is \<open>Upload already exists\<close>. The staging directory could be
  ensured, and its \<open>error.txt\<close> is not a directory.
\<close>

theorem duplicate_check_runs_after_the_quota_guard:
  assumes gate: "reqMethod req = ''POST''" "validateFrom req" "astroBigFileUpload req = Some ''true''"
    and info: "zodValidationInfo (reqInfo req) = Some data" and payload: "reqFile req = Some f"
    and dist: "distinct (map fst s0)"
    and artifact: "map_of s0 (uploadId data) = Some (File ta ca)"
    and fresh: "\<not> now - ta > maxUploadTime opts"
    and ensure: "ensureDir now [stagingName (uploadId data)]
                   (filter (\<lambda>(n, x). \<not> now - mtime x > maxUploadTime opts) s0) = Inr s2"
    and dir: "stat s2 [stagingName (uploadId data)] = Some (Dir t es)"
    and marker: "\<forall>t' sub. map_of es ''error.txt'' \<noteq> Some (Dir t' sub)"
  shows "(\<forall>r. quotaGuard opts data f now s2 = Some r \<longrightarrow> loadUploadFiles ord opts req now s0 = r) \<and>
         (quotaGuard opts data f now s2 = None \<longrightarrow>
            fst (loadUploadFiles ord opts req now s0) =
              Returned (Json False (Some ''Upload already exists'') None) None)"
proof -
  note adm = duplicate_submission(2)[OF gate info payload dist artifact fresh ensure]
  from dir have dir': "map_of s2 (stagingName (uploadId data)) = Some (Dir t es)" by simp
  have "loadUploadFiles ord opts req now s0 = r" if "quotaGuard opts data f now s2 = Some r" for r
    using adm that by (simp add: loadUploadFiles_def)
  moreover have "fst (loadUploadFiles ord opts req now s0) =
              Returned (Json False (Some ''Upload already exists'') None) None"
    if "quotaGuard opts data f now s2 = None"
    using adm that sendError_ok[OF dir' marker, of now "''Upload already exists''"]
    by (simp add: loadUploadFiles_def)
  ultimately show ?thesis by blast
qed

theorem duplicate_check_runs_after_the_quota_guard_witness:
  "quotaGuard exampleOptions (exampleInfo 1 3) ''ccc'' 10
     [(exampleId, File 5 ''xx''), (stagingName exampleId, Dir 10 [])] = None \<and>
   fst (loadUploadFiles byName exampleOptions (exampleRequest 1 3 ''ccc'') 10 [(exampleId, File 5 ''xx'')])
     = Returned (Json False (Some ''Upload already exists'') None) None"
  using duplicate_check_runs_after_the_quota_guard[OF example_duplicate(1-11)] example_duplicate(12)
  by simp

text \<open>
  Claim C4, as the claim states it, fails: the submission after the artifact is there
  creates the staging directory again and writes the marker into it.
\<close>

theorem duplicate_submission_mutates_counterexample:
  "stat [(exampleId, File 5 ''xx'')] [stagingName exampleId] = None \<and>
   loadUploadFiles byName exampleOptions (exampleRequest 1 3 ''ccc'') 10 [(exampleId, File 5 ''xx'')]
   = (Returned (Json False (Some ''Upload already exists'') None) None,
      [(exampleId, File 5 ''xx''),
       (stagingName exampleId, Dir 10 [(''error.txt'', File 10 ''Upload already exists'')])])"
  by code_simp

text \<open>
  Claim C4, amended. With the final artifact in place and not stale, a further submission
  for the identifier that passes the quota guard is answered with
  \<open>Upload already exists\<close> and leaves the final artifact as it was. It does change the
  storage: stale entries are reaped, the staging directory of the identifier is ensured
  and the marker \<open>error.txt\<close> is written into it. Every other entry of the reaped
  storage is unchanged.
\<close>

theorem duplicate_submission_keeps_the_artifact:
  assumes gate: "reqMethod req = ''POST''" "validateFrom req" "astroBigFileUpload req = Some ''true''"
    and info: "zodValidationInfo (reqInfo req) = Some data" and payload: "reqFile req = Some f"
    and dist: "distinct (map fst s0)"
    and artifact: "map_of s0 (uploadId data) = Some (File ta ca)"
    and fresh: "\<not> now - ta > maxUploadTime opts"
    and ensure: "ensureDir now [stagingName (uploadId data)]
                   (filter (\<lambda>(n, x). \<not> now - mtime x > maxUploadTime opts) s0) = Inr s2"
    and dir: "stat s2 [stagingName (uploadId data)] = Some (Dir t es)"
    and marker: "\<forall>t' sub. map_of es ''error.txt'' \<noteq> Some (Dir t' sub)"
    and quota: "quotaGuard opts data f now s2 = None"
  shows "fst (loadUploadFiles ord opts req now s0) =
           Returned (Json False (Some ''Upload already exists'') None) None
       \<and> stat (snd (loadUploadFiles ord opts req now s0)) [uploadId data] = Some (File ta ca)
       \<and> stat (snd (loadUploadFiles ord opts req now s0)) [stagingName (uploadId data), ''error.txt'']
           = Some (File now ''Upload already exists'')
       \<and> (\<forall>k. k \<noteq> stagingName (uploadId data) \<longrightarrow>
            map_of (snd (loadUploadFiles ord opts req now s0)) k =
            map_of (filter (\<lambda>(n, x). \<not> now - mtime x > maxUploadTime opts) s0) k)"
proof -
  let ?d = "stagingName (uploadId data)"
  let ?F = "filter (\<lambda>(n, x). \<not> now - mtime x > maxUploadTime opts) s0"
  note a2 = duplicate_submission(1)[OF gate info payload dist artifact fresh ensure]
  note adm = duplicate_submission(2)[OF gate info payload dist artifact fresh ensure]
  from dir have dir': "map_of s2 ?d = Some (Dir t es)" by simp
  have run: "loadUploadFiles ord opts req now s0 =
      (Returned (Json False (Some ''Upload already exists'') None) None,
       AList.update ?d (restamp now t es
          (AList.update ''error.txt'' (File now ''Upload already exists'') es)) s2)"
    using adm quota sendError_ok[OF dir' marker, of now "''Upload already exists''"]
    by (simp add: loadUploadFiles_def)
  have other: "map_of s2 k = map_of ?F k" if "k \<noteq> ?d" for k
    using ensure that by (rule ensureDir_other)
  show ?thesis
    unfolding run using a2 other
    by (simp add: update_conv' restamp_def)
qed

theorem duplicate_submission_keeps_the_artifact_witness:
  "fst (loadUploadFiles byName exampleOptions (exampleRequest 1 3 ''ccc'') 10 [(exampleId, File 5 ''xx'')])
     = Returned (Json False (Some ''Upload already exists'') None) None \<and>
   stat (snd (loadUploadFiles byName exampleOptions (exampleRequest 1 3 ''ccc'') 10
                [(exampleId, File 5 ''xx'')])) [exampleId] = Some (File 5 ''xx'')"
  using duplicate_submission_keeps_the_artifact[OF example_duplicate]
  by (simp add: exampleInfo_def)

end
